theory Spec2Isabelle
  imports Main "HOL-Library.Sublist"
begin

section \<open>Go strings and the text helpers of the downloader\<close>

text \<open>
  A Go \<^verbatim>\<open>string\<close> is a sequence of bytes, here a \<^typ>\<open>string\<close> (a list of 8-bit
  characters). \<^verbatim>\<open>strings.TrimSpace\<close> and the \<^verbatim>\<open>regexp\<close> package read a string as
  UTF-8: a rune is white space for \<^verbatim>\<open>unicode.IsSpace\<close> when it is one of
  U+0009..U+000D, U+0020, U+0085, U+00A0, U+1680, U+2000..U+200A, U+2028, U+2029,
  U+202F, U+205F, U+3000. The decoder accepts exactly the shortest encoding of a rune,
  at the start of a string (\<^verbatim>\<open>DecodeRuneInString\<close>) and at its end
  (\<^verbatim>\<open>DecodeLastRuneInString\<close>), so a string starts (ends) with a white-space rune
  exactly when one of the encodings below is a prefix (suffix) of its bytes.
\<close>

definition spaceRunes :: "string list" where
  "spaceRunes =
     [[CHR 0x09], [CHR 0x0A], [CHR 0x0B], [CHR 0x0C], [CHR 0x0D], [CHR 0x20],
      [CHR 0xC2, CHR 0x85], [CHR 0xC2, CHR 0xA0],
      [CHR 0xE1, CHR 0x9A, CHR 0x80],
      [CHR 0xE2, CHR 0x80, CHR 0x80], [CHR 0xE2, CHR 0x80, CHR 0x81],
      [CHR 0xE2, CHR 0x80, CHR 0x82], [CHR 0xE2, CHR 0x80, CHR 0x83],
      [CHR 0xE2, CHR 0x80, CHR 0x84], [CHR 0xE2, CHR 0x80, CHR 0x85],
      [CHR 0xE2, CHR 0x80, CHR 0x86], [CHR 0xE2, CHR 0x80, CHR 0x87],
      [CHR 0xE2, CHR 0x80, CHR 0x88], [CHR 0xE2, CHR 0x80, CHR 0x89],
      [CHR 0xE2, CHR 0x80, CHR 0x8A],
      [CHR 0xE2, CHR 0x80, CHR 0xA8], [CHR 0xE2, CHR 0x80, CHR 0xA9],
      [CHR 0xE2, CHR 0x80, CHR 0xAF],
      [CHR 0xE2, CHR 0x81, CHR 0x9F],
      [CHR 0xE3, CHR 0x80, CHR 0x80]]"

definition leadSpace :: "string \<Rightarrow> nat" where
  "leadSpace s = (case filter (\<lambda>p. prefix p s) spaceRunes of [] \<Rightarrow> 0 | p # _ \<Rightarrow> length p)"

definition trailSpace :: "string \<Rightarrow> nat" where
  "trailSpace s = (case filter (\<lambda>p. suffix p s) spaceRunes of [] \<Rightarrow> 0 | p # _ \<Rightarrow> length p)"

lemma filter_Cons_mem: "filter P xs = q # qs \<Longrightarrow> q \<in> set xs \<and> P q"
proof -
  assume "filter P xs = q # qs"
  then have "q \<in> set (filter P xs)" by simp
  then show ?thesis by simp
qed

lemma spaceRunes_nonempty: "p \<in> set spaceRunes \<Longrightarrow> p \<noteq> []"
  by (auto simp: spaceRunes_def)

lemma leadSpace_pos: "0 < leadSpace s \<Longrightarrow> \<exists>p \<in> set spaceRunes. prefix p s \<and> leadSpace s = length p"
  unfolding leadSpace_def
  by (auto split: list.splits dest: filter_Cons_mem)

lemma leadSpace_le: "leadSpace s \<le> length s"
proof (cases "leadSpace s = 0")
  case False
  then obtain p where "prefix p s" "leadSpace s = length p" using leadSpace_pos by blast
  then show ?thesis by (simp add: prefix_length_le)
qed simp

lemma leadSpace_zero_iff: "leadSpace s = 0 \<longleftrightarrow> (\<forall>p \<in> set spaceRunes. \<not> prefix p s)"
proof
  assume z: "leadSpace s = 0"
  show "\<forall>p \<in> set spaceRunes. \<not> prefix p s"
  proof
    fix p assume p: "p \<in> set spaceRunes"
    show "\<not> prefix p s"
    proof
      assume "prefix p s"
      then have "p \<in> set (filter (\<lambda>p. prefix p s) spaceRunes)" using p by simp
      then obtain q qs where f: "filter (\<lambda>p. prefix p s) spaceRunes = q # qs"
        by (cases "filter (\<lambda>p. prefix p s) spaceRunes") auto
      then have "q \<in> set spaceRunes" by (auto dest: filter_Cons_mem)
      then have "q \<noteq> []" by (rule spaceRunes_nonempty)
      with f z show False by (simp add: leadSpace_def)
    qed
  qed
next
  assume "\<forall>p \<in> set spaceRunes. \<not> prefix p s"
  then have "filter (\<lambda>p. prefix p s) spaceRunes = []" by (simp add: filter_empty_conv)
  then show "leadSpace s = 0" by (simp add: leadSpace_def)
qed

lemma trailSpace_pos: "0 < trailSpace s \<Longrightarrow> \<exists>p \<in> set spaceRunes. suffix p s \<and> trailSpace s = length p"
  unfolding trailSpace_def
  by (auto split: list.splits dest: filter_Cons_mem)

lemma trailSpace_le: "trailSpace s \<le> length s"
proof (cases "trailSpace s = 0")
  case False
  then obtain p where "suffix p s" "trailSpace s = length p" using trailSpace_pos by blast
  then show ?thesis by (simp add: suffix_length_le)
qed simp

lemma trailSpace_zero_iff: "trailSpace s = 0 \<longleftrightarrow> (\<forall>p \<in> set spaceRunes. \<not> suffix p s)"
proof
  assume z: "trailSpace s = 0"
  show "\<forall>p \<in> set spaceRunes. \<not> suffix p s"
  proof
    fix p assume p: "p \<in> set spaceRunes"
    show "\<not> suffix p s"
    proof
      assume "suffix p s"
      then have "p \<in> set (filter (\<lambda>p. suffix p s) spaceRunes)" using p by simp
      then obtain q qs where f: "filter (\<lambda>p. suffix p s) spaceRunes = q # qs"
        by (cases "filter (\<lambda>p. suffix p s) spaceRunes") auto
      then have "q \<in> set spaceRunes" by (auto dest: filter_Cons_mem)
      then have "q \<noteq> []" by (rule spaceRunes_nonempty)
      with f z show False by (simp add: trailSpace_def)
    qed
  qed
next
  assume "\<forall>p \<in> set spaceRunes. \<not> suffix p s"
  then have "filter (\<lambda>p. suffix p s) spaceRunes = []" by (simp add: filter_empty_conv)
  then show "trailSpace s = 0" by (simp add: trailSpace_def)
qed

function TrimLeft :: "string \<Rightarrow> string" where
  "TrimLeft s = (if leadSpace s = 0 then s else TrimLeft (drop (leadSpace s) s))"
  by pat_completeness auto
termination
proof (relation "measure length")
  fix s :: string assume "leadSpace s \<noteq> 0"
  moreover have "leadSpace s \<le> length s" by (rule leadSpace_le)
  ultimately show "(drop (leadSpace s) s, s) \<in> measure length" by simp
qed simp

function TrimRight :: "string \<Rightarrow> string" where
  "TrimRight s = (if trailSpace s = 0 then s else TrimRight (take (length s - trailSpace s) s))"
  by pat_completeness auto
termination
proof (relation "measure length")
  fix s :: string assume "trailSpace s \<noteq> 0"
  moreover have "trailSpace s \<le> length s" by (rule trailSpace_le)
  ultimately show "(take (length s - trailSpace s) s, s) \<in> measure length" by simp
qed simp

declare TrimLeft.simps [simp del] TrimRight.simps [simp del]

definition TrimSpace :: "string \<Rightarrow> string" where
  "TrimSpace s = TrimRight (TrimLeft s)"

text \<open>
  \<^verbatim>\<open>sanitize\<close> replaces with one space every match of the expression
  \<^verbatim>\<open>[<>:"/\\|?*\x00-\x1F]+\<close>. All members of the class are below 0x80, and in UTF-8 such
  a byte is always a rune of its own, so the leftmost-longest matches are the maximal
  runs of bytes of the class.
\<close>

definition illegal :: "char \<Rightarrow> bool" where
  "illegal c \<longleftrightarrow>
     c \<in> set [CHR ''<'', CHR ''>'', CHR '':'', CHR 0x22, CHR ''/'', CHR 0x5C, CHR ''|'', CHR ''?'', CHR ''*'']
     \<or> (of_char c :: nat) \<le> 0x1F"

function ReplaceAllString :: "string \<Rightarrow> string" where
  "ReplaceAllString [] = []"
| "ReplaceAllString (c # cs) =
     (if illegal c then CHR '' '' # ReplaceAllString (dropWhile illegal cs)
      else c # ReplaceAllString cs)"
  by pat_completeness auto
termination
  by (relation "measure length") (auto simp: length_dropWhile_le le_imp_less_Suc)

definition sanitize :: "string \<Rightarrow> string" where
  "sanitize name0 =
     (let name1 = TrimSpace name0;
          name2 = ReplaceAllString name1;
          name3 = TrimSpace name2
      in if name3 = [] then ''recording'' else name3)"


section \<open>Cookies\<close>

text \<open>
  \<^verbatim>\<open>*http.Cookie\<close> is a pointer: \<open>None\<close> is \<^verbatim>\<open>nil\<close>. Of the fields of
  \<^verbatim>\<open>net/http.Cookie\<close> the downloader reads \<open>Name\<close> and sets \<open>Name\<close> and \<open>Value\<close>;
  the other fields of the session cookie are zero. The \<^verbatim>\<open>map[string]bool\<close> called
  \<open>seen\<close> only ever stores \<^verbatim>\<open>true\<close>, so it is the set of its keys.
\<close>

record Cookie =
  Name :: string
  Value :: string
  Path :: string
  Domain :: string

type_synonym cookie_ptr = "Cookie option"

definition sessionCookie :: "string \<Rightarrow> Cookie" where
  "sessionCookie session =
     \<lparr>Name = ''BREEZESESSION'', Value = session, Path = [], Domain = []\<rparr>"

fun mergeLoop ::
  "string set \<Rightarrow> cookie_ptr list \<Rightarrow> cookie_ptr list \<Rightarrow> cookie_ptr list" where
  "mergeLoop seen cookies [] = cookies"
| "mergeLoop seen cookies (None # extra) = mergeLoop seen cookies extra"
| "mergeLoop seen cookies (Some c # extra) =
     (if Name c = [] then mergeLoop seen cookies extra
      else if Name c \<in> seen then mergeLoop seen cookies extra
      else mergeLoop (insert (Name c) seen) (cookies @ [Some c]) extra)"

definition mergeCookies :: "string \<Rightarrow> cookie_ptr list \<Rightarrow> cookie_ptr list" where
  "mergeCookies session extra =
     (if session \<noteq> []
      then mergeLoop {''BREEZESESSION''} [Some (sessionCookie session)] extra
      else mergeLoop {} [] extra)"

text \<open>The names of a list of cookies, and the invariant of the loop of \<open>mergeCookies\<close>.\<close>

definition cookieNames :: "cookie_ptr list \<Rightarrow> string list" where
  "cookieNames cs = map (\<lambda>p. case p of None \<Rightarrow> [] | Some c \<Rightarrow> Name c) cs"

definition mergeInv :: "string set \<Rightarrow> cookie_ptr list \<Rightarrow> bool" where
  "mergeInv seen cookies \<longleftrightarrow>
     None \<notin> set cookies \<and> [] \<notin> set (cookieNames cookies)
     \<and> distinct (cookieNames cookies) \<and> seen = set (cookieNames cookies)"

section \<open>Errors\<close>

text \<open>
  A Go \<^verbatim>\<open>error\<close> is a value. The four sentinels of the package come first;
  \<open>New\<close> is an error made by \<^verbatim>\<open>errors.New\<close> or by \<^verbatim>\<open>fmt.Errorf\<close> without \<^verbatim>\<open>%w\<close>,
  \<open>Wrapf pre e suf\<close> is \<^verbatim>\<open>fmt.Errorf\<close> with the text \<open>pre\<close>, the wrapped error
  \<open>e\<close> at \<^verbatim>\<open>%w\<close> and the text \<open>suf\<close>, and \<open>External\<close> is an error made outside the
  package (by \<^verbatim>\<open>net/http\<close>, \<^verbatim>\<open>os\<close>, \<^verbatim>\<open>io\<close>, \<^verbatim>\<open>archive/zip\<close> or the context).
  The errors whose text holds a formatted number or name keep the number or name.
\<close>

datatype error =
    ErrNotFound
  | ErrInvalidZip
  | ErrAuthRequired
  | ErrDirectoryExists
  | New string
  | Wrapf string error string
  | External string
  | ErrUnexpectedStatus int
  | ErrTooSmall int
  | ErrUnsafePath string

text \<open>\<^verbatim>\<open>errors.Is\<close>: the error or one it wraps is the target.\<close>

fun errors_Is :: "error \<Rightarrow> error \<Rightarrow> bool" where
  "errors_Is (Wrapf pre e suf) target = (Wrapf pre e suf = target \<or> errors_Is e target)"
| "errors_Is e target = (e = target)"

text \<open>
  The text of an error, for the errors whose text the package fixes; the text of a
  formatted number is left out.
\<close>

fun Error :: "error \<Rightarrow> string" where
  "Error ErrNotFound = ''resource not found''"
| "Error ErrInvalidZip = ''invalid zip content''"
| "Error ErrAuthRequired =
     ''authentication required: this recording requires a valid session token''"
| "Error ErrDirectoryExists = ''output directory already exists''"
| "Error (New msg) = msg"
| "Error (Wrapf pre e suf) = pre @ Error e @ suf"
| "Error (External msg) = msg"
| "Error (ErrUnexpectedStatus code) = ''unexpected status''"
| "Error (ErrTooSmall n) = ''file too small, likely an error page''"
| "Error (ErrUnsafePath name) = ''unsafe path in zip: '' @ name"

definition io_ErrUnexpectedEOF :: error where
  "io_ErrUnexpectedEOF = External ''unexpected EOF''"

text \<open>\<^verbatim>\<open>strings.Contains\<close> and \<^verbatim>\<open>strings.HasPrefix\<close>.\<close>

fun Contains :: "string \<Rightarrow> string \<Rightarrow> bool" where
  "Contains [] substr = (substr = [])"
| "Contains (c # cs) substr = (prefix substr (c # cs) \<or> Contains cs substr)"

definition HasPrefix :: "string \<Rightarrow> string \<Rightarrow> bool" where
  "HasPrefix s pre = prefix pre s"

text \<open>
  \<^verbatim>\<open>strings.ToLower\<close> on the ASCII letters. (No rune outside ASCII has one of the
  letters of \<^verbatim>\<open>text/html\<close> as its lower case, so for the test below the remaining
  mappings make no difference.)
\<close>

definition toLowerByte :: "char \<Rightarrow> char" where
  "toLowerByte c =
     (if (65::nat) \<le> of_char c \<and> of_char c \<le> (90::nat) then char_of (of_char c + (32::nat)) else c)"

definition ToLower :: "string \<Rightarrow> string" where
  "ToLower s = map toLowerByte s"

section \<open>Paths: \<^verbatim>\<open>path/filepath\<close> with the separator \<^verbatim>\<open>/\<close>\<close>

text \<open>
  \<^verbatim>\<open>filepath.Clean\<close> on a system whose separator is \<^verbatim>\<open>/\<close>: the elements between
  separators are read from left to right; an empty element and \<^verbatim>\<open>.\<close> are dropped;
  \<^verbatim>\<open>..\<close> removes the element before it when that is a name, is kept at the start of
  a path that is not rooted, and is dropped at the root; the empty result is \<^verbatim>\<open>.\<close>.
  \<open>cleanElems\<close> keeps the elements written so far in reverse.
\<close>

fun splitSlash :: "string \<Rightarrow> string list" where
  "splitSlash [] = [[]]"
| "splitSlash (c # cs) =
     (if c = CHR ''/'' then [] # splitSlash cs
      else (case splitSlash cs of [] \<Rightarrow> [[c]] | e # es \<Rightarrow> (c # e) # es))"

fun joinSlash :: "string list \<Rightarrow> string" where
  "joinSlash [] = []"
| "joinSlash [e] = e"
| "joinSlash (e # es) = e @ ''/'' @ joinSlash es"

fun cleanElems :: "bool \<Rightarrow> string list \<Rightarrow> string list \<Rightarrow> string list" where
  "cleanElems rooted out [] = rev out"
| "cleanElems rooted out (e # es) =
     (if e = [] \<or> e = ''.'' then cleanElems rooted out es
      else if e = ''..'' then
        (case out of
           [] \<Rightarrow> if rooted then cleanElems rooted [] es else cleanElems rooted [''..''] es
         | el # below \<Rightarrow>
             if el \<noteq> ''..'' then cleanElems rooted below es
             else if rooted then cleanElems rooted out es
             else cleanElems rooted (''..'' # out) es)
      else cleanElems rooted (e # out) es)"

definition Clean :: "string \<Rightarrow> string" where
  "Clean path =
     (if path = [] then ''.''
      else
        let rooted = (hd path = CHR ''/'');
            body = joinSlash (cleanElems rooted [] (splitSlash path))
        in if rooted then CHR ''/'' # body
           else if body = [] then ''.'' else body)"

text \<open>
  \<^verbatim>\<open>filepath.Join\<close>: the elements from the first non-empty one on are joined with the
  separator and cleaned; with no non-empty element the result is empty.
\<close>

definition Join :: "string list \<Rightarrow> string" where
  "Join elem =
     (case dropWhile (\<lambda>e. e = []) elem of
        [] \<Rightarrow> []
      | e # es \<Rightarrow> Clean (joinSlash (e # es)))"

text \<open>\<^verbatim>\<open>filepath.Dir\<close>: the path up to its last separator, cleaned.\<close>

definition Dir :: "string \<Rightarrow> string" where
  "Dir path = Clean (rev (dropWhile (\<lambda>c. c \<noteq> CHR ''/'') (rev path)))"

section \<open>The file system and the network\<close>

text \<open>
  The file system is a finite map from cleaned paths to nodes; \<^verbatim>\<open>.\<close> and \<^verbatim>\<open>/\<close>
  always are directories. Paths are compared as cleaned strings (no symbolic links,
  no working directory). An operation fails when the state makes it fail (a missing
  parent, a file where a directory is needed) or when the world says so
  (\<open>Fault\<close>: permissions, a full disk, a rename across devices).
\<close>

datatype node = File string | Directory

type_synonym fs = "(string \<times> node) list"

datatype fsop =
    OpMkdirAll string
  | OpCreate string
  | OpOpen string
  | OpWrite string
  | OpFlush string
  | OpRename string string
  | OpRemove string
  | OpReadDir string

record URL =
  Scheme :: string
  Host :: string
  UPath :: string
  QuerySession :: string

record Request =
  reqURL :: string
  reqCookies :: "cookie_ptr list"
  reqReferer :: string
  reqUserAgent :: string
  reqAccept :: string

text \<open>
  A response: \<open>Body\<close> holds the bytes the body delivers and \<open>BodyErr\<close> the text of
  the error that ends it (\<open>None\<close> for \<^verbatim>\<open>io.EOF\<close>); once the body has failed, every later read
  fails with the same error.
\<close>

record Response =
  StatusCode :: int
  ContentType :: string
  ContentLength :: int
  Body :: string
  BodyErr :: "string option"
  RespCookies :: "cookie_ptr list"

text \<open>What the scraping helpers find in a page (they are outside the verified core).\<close>

record Scraped =
  scTitle :: string
  scCasURL :: string
  scVideoSrc :: string
  scTrackSrc :: string
  scJsVTT :: string

text \<open>An entry of a ZIP archive, as \<^verbatim>\<open>archive/zip\<close> reads it.\<close>

record zipEntry =
  entryName :: string
  entryIsDir :: bool
  entryData :: "string + string"

text \<open>
  The world outside the package: the standard library's URL parser, the HTTP client,
  the faults of the file system, the scraping helpers, the ZIP reader, the steps
  after the extraction of the archive (captions, names, documents, chat log) and the
  processing of captions, which only add files, and the one scheduling choice that
  matters, whether the archive goroutine has run when the page result is handled.
  An error that comes from outside is given by its text \<open>m\<close> and is the value
  \<open>External m\<close> in the package.
\<close>

record World =
  urlParse :: "string \<Rightarrow> string + URL"
  NewRequestErr :: "string \<Rightarrow> string option"
  Do :: "Request \<Rightarrow> string + Response"
  Fault :: "fsop \<Rightarrow> string option"
  pageScrape :: "string \<Rightarrow> Scraped"
  zipReader :: "string \<Rightarrow> string + zipEntry list"
  afterExtraction :: "fs \<Rightarrow> fs \<times> string"
  captionProcessing :: "fs \<Rightarrow> fs"
  archiveRunsFirst :: bool

definition put :: "fs \<Rightarrow> string \<Rightarrow> node \<Rightarrow> fs" where
  "put fs p n = (p, n) # filter (\<lambda>(q, _). q \<noteq> p) fs"

definition del :: "fs \<Rightarrow> string \<Rightarrow> fs" where
  "del fs p = filter (\<lambda>(q, _). q \<noteq> p) fs"

definition isDir :: "fs \<Rightarrow> string \<Rightarrow> bool" where
  "isDir fs p \<longleftrightarrow> p = ''.'' \<or> p = ''/'' \<or> map_of fs p = Some Directory"

definition isFile :: "fs \<Rightarrow> string \<Rightarrow> bool" where
  "isFile fs p \<longleftrightarrow> (case map_of fs p of Some (File _) \<Rightarrow> True | _ \<Rightarrow> False)"

definition children :: "fs \<Rightarrow> string \<Rightarrow> string list" where
  "children fs p = map fst (filter (\<lambda>(q, _). q \<noteq> p \<and> Dir q = p) fs)"

function ancestors :: "string \<Rightarrow> string list" where
  "ancestors p = (if length (Dir p) < length p then ancestors (Dir p) @ [p] else [p])"
  by pat_completeness auto
termination
  by (relation "measure length") auto

declare ancestors.simps [simp del]

definition MkdirAll :: "World \<Rightarrow> fs \<Rightarrow> string \<Rightarrow> fs \<times> error option" where
  "MkdirAll w fs p =
     (case Fault w (OpMkdirAll p) of
        Some m \<Rightarrow> (fs, Some (External m))
      | None \<Rightarrow>
          if list_ex (isFile fs) (ancestors p) then (fs, Some (External ''not a directory''))
          else (foldl (\<lambda>f q. if isDir f q then f else put f q Directory) fs (ancestors p), None))"

definition Create :: "World \<Rightarrow> fs \<Rightarrow> string \<Rightarrow> fs \<times> error option" where
  "Create w fs p =
     (case Fault w (OpCreate p) of
        Some m \<Rightarrow> (fs, Some (External m))
      | None \<Rightarrow>
          if isDir fs p then (fs, Some (External ''is a directory''))
          else if \<not> isDir fs (Dir p) then (fs, Some (External ''no such file or directory''))
          else (put fs p (File []), None))"

text \<open>\<^verbatim>\<open>os.Remove\<close>; every caller drops its error.\<close>

definition Remove :: "World \<Rightarrow> fs \<Rightarrow> string \<Rightarrow> fs" where
  "Remove w fs p =
     (case Fault w (OpRemove p) of
        Some m \<Rightarrow> fs
      | None \<Rightarrow>
          if isFile fs p then del fs p
          else if map_of fs p = Some Directory \<and> children fs p = [] then del fs p
          else fs)"

text \<open>\<^verbatim>\<open>os.Rename\<close>, which the downloader uses on regular files only.\<close>

definition Rename :: "World \<Rightarrow> fs \<Rightarrow> string \<Rightarrow> string \<Rightarrow> fs \<times> error option" where
  "Rename w fs old new =
     (case Fault w (OpRename old new) of
        Some m \<Rightarrow> (fs, Some (External m))
      | None \<Rightarrow>
          (case map_of fs old of
             Some (File d) \<Rightarrow>
               if isDir fs new \<or> \<not> isDir fs (Dir new)
               then (fs, Some (External ''rename failed''))
               else (put (del fs old) new (File d), None)
           | _ \<Rightarrow> (fs, Some (External ''no such file or directory''))))"

definition ReadDir :: "World \<Rightarrow> fs \<Rightarrow> string \<Rightarrow> error + string list" where
  "ReadDir w fs p =
     (case Fault w (OpReadDir p) of
        Some m \<Rightarrow> Inl (External m)
      | None \<Rightarrow>
          if isDir fs p then Inr (children fs p)
          else Inl (External ''no such file or directory''))"

text \<open>\<open>copyFile dst src\<close> of the package: open, create, copy.\<close>

definition copyFile :: "World \<Rightarrow> fs \<Rightarrow> string \<Rightarrow> string \<Rightarrow> fs \<times> error option" where
  "copyFile w fs dst src =
     (case Fault w (OpOpen src) of
        Some m \<Rightarrow> (fs, Some (External m))
      | None \<Rightarrow>
          (case map_of fs src of
             Some (File d) \<Rightarrow>
               (case Create w fs dst of
                  (fs1, Some e) \<Rightarrow> (fs1, Some e)
                | (fs1, None) \<Rightarrow>
                    (case Fault w (OpWrite dst) of
                       Some m \<Rightarrow> (fs1, Some (External m))
                     | None \<Rightarrow> (put fs1 dst (File d), None)))
           | _ \<Rightarrow> (fs, Some (External ''no such file or directory''))))"

section \<open>The transfer primitive: \<open>downloadFile\<close>\<close>

datatype fileKind = fileKindBinary | fileKindZip | fileKindVideo

record downloadOptions =
  Cookies :: "cookie_ptr list"
  Referer :: string
  Kind :: fileKind

definition defaultUserAgent :: string where
  "defaultUserAgent = ''Mozilla/5.0 (Windows NT 10.0; Win64; x64) AppleWebKit/537.36 (KHTML, like Gecko) Chrome/120.0.0.0 Safari/537.36''"

definition videoAccept :: string where
  "videoAccept = ''video/webm,video/ogg,video/*;q=0.9,application/ogg;q=0.7,audio/*;q=0.6,*/*;q=0.5''"

text \<open>
  \<open>applyRequestOptions\<close>: the cookies, the referer when it is not empty, the user
  agent, and the accept header for the accept type \<^verbatim>\<open>video\<close>.
\<close>

definition applyRequestOptions :: "Request \<Rightarrow> cookie_ptr list \<Rightarrow> string \<Rightarrow> string \<Rightarrow> Request" where
  "applyRequestOptions req cookies referer acceptType =
     req\<lparr>reqCookies := reqCookies req @ cookies,
         reqReferer := (if referer \<noteq> [] then referer else reqReferer req),
         reqUserAgent := defaultUserAgent,
         reqAccept := (if acceptType = ''video'' then videoAccept else reqAccept req)\<rparr>"

definition newRequest :: "string \<Rightarrow> Request" where
  "newRequest url =
     \<lparr>reqURL = url, reqCookies = [], reqReferer = [], reqUserAgent = [], reqAccept = []\<rparr>"

definition isHTMLResponse :: "string \<Rightarrow> string \<Rightarrow> bool" where
  "isHTMLResponse ct chunk =
     (if Contains (ToLower ct) ''text/html'' then True
      else (let trimmed = TrimSpace chunk in trimmed \<noteq> [] \<and> hd trimmed = CHR ''<''))"

definition isZipSignature :: "string \<Rightarrow> bool" where
  "isZipSignature b \<longleftrightarrow>
     length b \<ge> 4 \<and> b ! 0 = CHR ''P'' \<and> b ! 1 = CHR ''K'' \<and> b ! 2 = CHR 0x03 \<and> b ! 3 = CHR 0x04"

text \<open>
  The part of \<open>downloadFile\<close> after the destination file is created: the first 4096
  bytes are read and checked, then written with the rest through a buffered writer.
  A read error other than the two end-of-file errors stops the download at the head;
  a body that fails later, a failing write and a failing flush are reported wrapped.
  The deferred flush leaves in the file what was buffered. The progress callback only
  observes the transfer and is left out. \<open>totalWritten\<close> is an \<^verbatim>\<open>int64\<close>: the number
  of bytes of a body is far below its range.
\<close>

definition streamBody ::
  "World \<Rightarrow> fs \<Rightarrow> string \<Rightarrow> fileKind \<Rightarrow> Response \<Rightarrow> fs \<times> error option" where
  "streamBody w fs dest kind resp =
     (let n = min 4096 (length (Body resp));
          head = take n (Body resp);
          readErr = (if n < 4096 then map_option External (BodyErr resp) else None)
      in
        if readErr \<noteq> None \<and> readErr \<noteq> Some io_ErrUnexpectedEOF then (fs, readErr)
        else if isHTMLResponse (ContentType resp) head then (fs, Some ErrNotFound)
        else if kind = fileKindZip \<and> n \<ge> 4 \<and> \<not> isZipSignature head then (fs, Some ErrInvalidZip)
        else
          (case BodyErr resp of
             Some m \<Rightarrow>
               (put fs dest (File (Body resp)), Some (Wrapf ''write file: '' (External m) []))
           | None \<Rightarrow>
               (case Fault w (OpWrite dest) of
                  Some m \<Rightarrow> (put fs dest (File head), Some (Wrapf ''write file: '' (External m) []))
                | None \<Rightarrow>
                    (case Fault w (OpFlush dest) of
                       Some m \<Rightarrow>
                         (put fs dest (File head), Some (Wrapf ''flush buffer: '' (External m) []))
                     | None \<Rightarrow>
                         (let totalWritten = int n + int (length (Body resp) - n);
                              fs' = put fs dest (File (Body resp))
                          in if kind = fileKindVideo \<and> totalWritten < 1024
                             then (fs', Some (ErrTooSmall totalWritten))
                             else (fs', None))))))"

definition downloadFile ::
  "World \<Rightarrow> fs \<Rightarrow> string \<Rightarrow> string \<Rightarrow> downloadOptions \<Rightarrow> fs \<times> error option" where
  "downloadFile w fs fileURL dest opts =
     (case NewRequestErr w fileURL of
        Some m \<Rightarrow> (fs, Some (External m))
      | None \<Rightarrow>
          (let acceptType =
                 (if Kind opts = fileKindVideo \<or> Kind opts = fileKindBinary then ''video'' else []);
               req = applyRequestOptions (newRequest fileURL) (Cookies opts) (Referer opts) acceptType
           in case Do w req of
                Inl m \<Rightarrow> (fs, Some (Wrapf ''request failed: '' (External m) []))
              | Inr resp \<Rightarrow>
                  if StatusCode resp = 403
                  then (fs, Some (New ''returned 403 (token may be expired or already used)''))
                  else if StatusCode resp = 404 then (fs, Some ErrNotFound)
                  else if StatusCode resp \<ge> 300
                  then (fs, Some (ErrUnexpectedStatus (StatusCode resp)))
                  else if Kind opts = fileKindVideo \<and> Contains (ContentType resp) ''text/html''
                  then (fs, Some (New ''returned HTML instead of video''))
                  else
                    (case MkdirAll w fs (Dir dest) of
                       (fs1, Some e) \<Rightarrow> (fs1, Some e)
                     | (fs1, None) \<Rightarrow>
                         (case Create w fs1 dest of
                            (fs2, Some e) \<Rightarrow> (fs2, Some e)
                          | (fs2, None) \<Rightarrow> streamBody w fs2 dest (Kind opts) resp))))"

text \<open>The request that \<open>downloadFile\<close> sends for a URL and its options.\<close>

definition requestFor :: "string \<Rightarrow> downloadOptions \<Rightarrow> Request" where
  "requestFor fileURL opts =
     applyRequestOptions (newRequest fileURL) (Cookies opts) (Referer opts)
       (if Kind opts = fileKindVideo \<or> Kind opts = fileKindBinary then ''video'' else [])"

section \<open>Concrete worlds for the examples\<close>

text \<open>
  A world without faults whose client is the given function, whose URL parser is the
  given function, and whose archive goroutine runs first or last as said.
\<close>

definition noScrape :: Scraped where
  "noScrape = \<lparr>scTitle = [], scCasURL = [], scVideoSrc = [], scTrackSrc = [], scJsVTT = []\<rparr>"

definition quietWorld ::
  "(string \<Rightarrow> string + URL) \<Rightarrow> (Request \<Rightarrow> string + Response) \<Rightarrow> (string \<Rightarrow> Scraped) \<Rightarrow> bool \<Rightarrow> World" where
  "quietWorld parse client scrape first =
     \<lparr>urlParse = parse, NewRequestErr = (\<lambda>_. None), Do = client, Fault = (\<lambda>_. None),
      pageScrape = scrape, zipReader = (\<lambda>_. Inr []), afterExtraction = (\<lambda>f. (f, [])),
      captionProcessing = (\<lambda>f. f), archiveRunsFirst = first\<rparr>"

definition plainResponse :: "int \<Rightarrow> string \<Rightarrow> string \<Rightarrow> Response" where
  "plainResponse code ct body =
     \<lparr>StatusCode = code, ContentType = ct, ContentLength = int (length body), Body = body,
      BodyErr = None, RespCookies = []\<rparr>"

text \<open>A world whose client answers every request with the same response.\<close>

definition answering :: "Response \<Rightarrow> World" where
  "answering resp = quietWorld (\<lambda>_. Inl ''no URL'') (\<lambda>_. Inr resp) (\<lambda>_. noScrape) True"

definition optsOf :: "fileKind \<Rightarrow> downloadOptions" where
  "optsOf kind = \<lparr>Cookies = [], Referer = ''https://h/rec/'', Kind = kind\<rparr>"

section \<open>Properties of the trimming and replacement helpers\<close>

lemma TrimLeft_id: "leadSpace s = 0 \<Longrightarrow> TrimLeft s = s"
  by (subst TrimLeft.simps) simp

lemma TrimLeft_step: "leadSpace s \<noteq> 0 \<Longrightarrow> TrimLeft s = TrimLeft (drop (leadSpace s) s)"
  by (subst TrimLeft.simps) simp

lemma TrimRight_id: "trailSpace s = 0 \<Longrightarrow> TrimRight s = s"
  by (subst TrimRight.simps) simp

lemma TrimRight_step:
  "trailSpace s \<noteq> 0 \<Longrightarrow> TrimRight s = TrimRight (take (length s - trailSpace s) s)"
  by (subst TrimRight.simps) simp

lemma TrimLeft_lead: "leadSpace (TrimLeft s) = 0"
proof (induction s rule: TrimLeft.induct)
  case (1 s)
  show ?case
  proof (cases "leadSpace s = 0")
    case True
    then show ?thesis by (simp add: TrimLeft_id)
  next
    case False
    with 1 show ?thesis by (simp add: TrimLeft_step)
  qed
qed

lemma TrimRight_trail: "trailSpace (TrimRight s) = 0"
proof (induction s rule: TrimRight.induct)
  case (1 s)
  show ?case
  proof (cases "trailSpace s = 0")
    case True
    then show ?thesis by (simp add: TrimRight_id)
  next
    case False
    with 1 show ?thesis by (simp add: TrimRight_step)
  qed
qed

lemma TrimRight_prefix: "prefix (TrimRight s) s"
proof (induction s rule: TrimRight.induct)
  case (1 s)
  show ?case
  proof (cases "trailSpace s = 0")
    case True
    then show ?thesis by (simp add: TrimRight_id)
  next
    case False
    with 1 have "prefix (TrimRight s) (take (length s - trailSpace s) s)"
      by (simp add: TrimRight_step)
    moreover have "prefix (take (length s - trailSpace s) s) s"
      by (rule take_is_prefix)
    ultimately show ?thesis by (rule prefix_order.trans)
  qed
qed

lemma TrimRight_keeps_lead: "leadSpace s = 0 \<Longrightarrow> leadSpace (TrimRight s) = 0"
  unfolding leadSpace_zero_iff
  using TrimRight_prefix prefix_order.trans by blast

lemma TrimLeft_subset: "set (TrimLeft s) \<subseteq> set s"
proof (induction s rule: TrimLeft.induct)
  case (1 s)
  show ?case
  proof (cases "leadSpace s = 0")
    case True
    then show ?thesis by (simp add: TrimLeft_id)
  next
    case False
    with 1 have "set (TrimLeft s) \<subseteq> set (drop (leadSpace s) s)"
      by (simp add: TrimLeft_step)
    moreover have "set (drop (leadSpace s) s) \<subseteq> set s"
      by (rule set_drop_subset)
    ultimately show ?thesis by (rule subset_trans)
  qed
qed

lemma TrimRight_subset: "set (TrimRight s) \<subseteq> set s"
  using TrimRight_prefix set_mono_prefix by blast

lemma TrimSpace_subset: "set (TrimSpace s) \<subseteq> set s"
  unfolding TrimSpace_def using TrimLeft_subset TrimRight_subset by blast

lemma TrimSpace_lead: "leadSpace (TrimSpace s) = 0"
  unfolding TrimSpace_def by (rule TrimRight_keeps_lead) (rule TrimLeft_lead)

lemma TrimSpace_trail: "trailSpace (TrimSpace s) = 0"
  unfolding TrimSpace_def by (rule TrimRight_trail)

lemma TrimSpace_id: "leadSpace s = 0 \<Longrightarrow> trailSpace s = 0 \<Longrightarrow> TrimSpace s = s"
  by (simp add: TrimSpace_def TrimLeft_id TrimRight_id)

lemma space_not_illegal: "\<not> illegal (CHR '' '')"
  by (simp add: illegal_def)

lemma ReplaceAllString_legal: "x \<in> set (ReplaceAllString s) \<Longrightarrow> \<not> illegal x"
proof (induction s arbitrary: x rule: ReplaceAllString.induct)
  case 1
  then show ?case by simp
next
  case (2 c cs)
  show ?case
  proof (cases "illegal c")
    case True
    with 2(3) have "x = CHR '' '' \<or> x \<in> set (ReplaceAllString (dropWhile illegal cs))"
      by simp
    with 2(1) True show ?thesis using space_not_illegal by blast
  next
    case False
    with 2(3) have "x = c \<or> x \<in> set (ReplaceAllString cs)" by simp
    with 2(2) False show ?thesis by blast
  qed
qed

lemma ReplaceAllString_id: "\<forall>c \<in> set s. \<not> illegal c \<Longrightarrow> ReplaceAllString s = s"
  by (induction s) simp_all

lemma sanitize_fixed:
  assumes "s \<noteq> []" "leadSpace s = 0" "trailSpace s = 0" "\<forall>c \<in> set s. \<not> illegal c"
  shows "sanitize s = s"
  using assms by (simp add: sanitize_def TrimSpace_id ReplaceAllString_id)

lemma sanitize_recording: "sanitize ''recording'' = ''recording''"
  by code_simp

lemma recording_trimmed: "leadSpace ''recording'' = 0 \<and> trailSpace ''recording'' = 0"
  by code_simp

lemma recording_legal: "\<forall>c \<in> set ''recording''. \<not> illegal c"
  by (simp add: illegal_def)

section \<open>Properties of \<open>mergeCookies\<close>\<close>

lemma mergeLoop_inv:
  "mergeInv seen cookies \<Longrightarrow>
   mergeInv (set (cookieNames (mergeLoop seen cookies extra))) (mergeLoop seen cookies extra)"
proof (induction seen cookies extra rule: mergeLoop.induct)
  case (1 seen cookies)
  then show ?case by (simp add: mergeInv_def)
next
  case (2 seen cookies extra)
  then show ?case by simp
next
  case (3 seen cookies c extra)
  show ?case
  proof (cases "Name c = [] \<or> Name c \<in> seen")
    case True
    with 3 show ?thesis by auto
  next
    case False
    from 3(4) False have "mergeInv (insert (Name c) seen) (cookies @ [Some c])"
      by (auto simp: mergeInv_def cookieNames_def)
    with 3(3) False show ?thesis by simp
  qed
qed

lemma mergeLoop_prefix:
  "\<exists>r. mergeLoop seen cookies extra = cookies @ r \<and> set r \<subseteq> set extra"
proof (induction seen cookies extra rule: mergeLoop.induct)
  case (1 seen cookies)
  then show ?case by simp
next
  case (2 seen cookies extra)
  then show ?case by auto
next
  case (3 seen cookies c extra)
  show ?case
  proof (cases "Name c = [] \<or> Name c \<in> seen")
    case True
    with 3(1,2) obtain r where "mergeLoop seen cookies extra = cookies @ r" "set r \<subseteq> set extra"
      by blast
    with True show ?thesis by auto
  next
    case False
    with 3(3) obtain r where
      "mergeLoop (insert (Name c) seen) (cookies @ [Some c]) extra = (cookies @ [Some c]) @ r"
      "set r \<subseteq> set extra"
      by blast
    with False show ?thesis by auto
  qed
qed

section \<open>Properties of \<open>downloadFile\<close>\<close>

lemma MkdirAll_error: "MkdirAll w fs p = (fs', Some e) \<Longrightarrow> \<exists>m. e = External m"
  by (auto simp: MkdirAll_def split: option.splits if_splits)

lemma Create_error: "Create w fs p = (fs', Some e) \<Longrightarrow> \<exists>m. e = External m"
  by (auto simp: Create_def split: option.splits if_splits)

lemma take_min_length: "take (min k (length xs)) xs = take k xs"
  by (cases "k \<le> length xs") (simp_all add: min_def)

lemma total_written: "int (min k L) + int (L - min k L) = int L"
  by (simp add: min_def)

lemma streamBody_unfold:
  "streamBody w fs dest kind resp =
     (if length (Body resp) < 4096 \<and> BodyErr resp \<noteq> None \<and> BodyErr resp \<noteq> Some ''unexpected EOF''
      then (fs, map_option External (BodyErr resp))
      else if isHTMLResponse (ContentType resp) (take 4096 (Body resp)) then (fs, Some ErrNotFound)
      else if kind = fileKindZip \<and> length (Body resp) \<ge> 4
                \<and> \<not> isZipSignature (take 4096 (Body resp))
      then (fs, Some ErrInvalidZip)
      else
        (case BodyErr resp of
           Some m \<Rightarrow>
             (put fs dest (File (Body resp)), Some (Wrapf ''write file: '' (External m) []))
         | None \<Rightarrow>
             (case Fault w (OpWrite dest) of
                Some m \<Rightarrow>
                  (put fs dest (File (take 4096 (Body resp))),
                   Some (Wrapf ''write file: '' (External m) []))
              | None \<Rightarrow>
                  (case Fault w (OpFlush dest) of
                     Some m \<Rightarrow>
                       (put fs dest (File (take 4096 (Body resp))),
                        Some (Wrapf ''flush buffer: '' (External m) []))
                   | None \<Rightarrow>
                       (if kind = fileKindVideo \<and> length (Body resp) < 1024
                        then (put fs dest (File (Body resp)),
                              Some (ErrTooSmall (int (length (Body resp)))))
                        else (put fs dest (File (Body resp)), None))))))"
proof -
  have n4: "4 \<le> min 4096 (length (Body resp)) \<longleftrightarrow> 4 \<le> length (Body resp)" by simp
  have nlt: "min 4096 (length (Body resp)) < 4096 \<longleftrightarrow> length (Body resp) < 4096" by (simp add: min_def)
  show ?thesis
    unfolding streamBody_def Let_def take_min_length total_written n4 nlt io_ErrUnexpectedEOF_def
    by (cases "BodyErr resp"; cases "Fault w (OpWrite dest)"; cases "Fault w (OpFlush dest)") auto
qed

lemma streamBody_error:
  assumes "streamBody w fs dest kind resp = (fs', Some e)"
  shows "(\<exists>m. e = External m)
         \<or> (e = ErrNotFound \<and> isHTMLResponse (ContentType resp) (take 4096 (Body resp)))
         \<or> (e = ErrInvalidZip \<and> kind = fileKindZip \<and> length (Body resp) \<ge> 4
              \<and> \<not> isZipSignature (take 4096 (Body resp)))
         \<or> (\<exists>pre m. e = Wrapf pre (External m) [])
         \<or> (e = ErrTooSmall (int (length (Body resp))) \<and> kind = fileKindVideo
              \<and> length (Body resp) < 1024)"
proof (cases "BodyErr resp")
  case None
  show ?thesis
  proof (cases "Fault w (OpWrite dest)")
    case w: None
    show ?thesis
    proof (cases "Fault w (OpFlush dest)")
      case f: None
      from assms None w f show ?thesis
        unfolding streamBody_unfold by (auto split: if_splits)
    next
      case (Some m)
      with assms None w show ?thesis
        unfolding streamBody_unfold by (auto split: if_splits)
    qed
  next
    case (Some m)
    with assms None show ?thesis
      unfolding streamBody_unfold by (auto split: if_splits)
  qed
next
  case (Some m)
  with assms show ?thesis
    unfolding streamBody_unfold by (auto split: if_splits)
qed

lemma streamBody_clean:
  assumes "BodyErr resp = None" "Fault w (OpWrite dest) = None" "Fault w (OpFlush dest) = None"
  shows "snd (streamBody w fs dest kind resp) =
     (if isHTMLResponse (ContentType resp) (take 4096 (Body resp)) then Some ErrNotFound
      else if kind = fileKindZip \<and> length (Body resp) \<ge> 4
                \<and> \<not> isZipSignature (take 4096 (Body resp)) then Some ErrInvalidZip
      else if kind = fileKindVideo \<and> length (Body resp) < 1024
      then Some (ErrTooSmall (int (length (Body resp))))
      else None)"
  using assms unfolding streamBody_unfold by simp

lemma downloadFile_response:
  assumes "NewRequestErr w fileURL = None" "Do w (requestFor fileURL opts) = Inr resp"
  shows "downloadFile w fs fileURL dest opts =
     (if StatusCode resp = 403
      then (fs, Some (New ''returned 403 (token may be expired or already used)''))
      else if StatusCode resp = 404 then (fs, Some ErrNotFound)
      else if StatusCode resp \<ge> 300 then (fs, Some (ErrUnexpectedStatus (StatusCode resp)))
      else if Kind opts = fileKindVideo \<and> Contains (ContentType resp) ''text/html''
      then (fs, Some (New ''returned HTML instead of video''))
      else
        (case MkdirAll w fs (Dir dest) of
           (fs1, Some e) \<Rightarrow> (fs1, Some e)
         | (fs1, None) \<Rightarrow>
             (case Create w fs1 dest of
                (fs2, Some e) \<Rightarrow> (fs2, Some e)
              | (fs2, None) \<Rightarrow> streamBody w fs2 dest (Kind opts) resp)))"
  using assms by (simp add: downloadFile_def requestFor_def Let_def)

section \<open>Claims\<close>

text \<open>
  C9. For every input string the output of \<open>sanitize\<close> is non-empty, starts and ends
  with no white-space rune, and contains none of the bytes \<open>< > : " / \ | ? *\<close> nor a
  control byte 0x00..0x1F; an input that is empty after the trimming, the replacement
  and the second trimming yields the fixed name \<open>recording\<close>; and \<open>sanitize\<close> is
  idempotent.
\<close>

theorem sanitize_spec:
  "sanitize s \<noteq> []
   \<and> leadSpace (sanitize s) = 0 \<and> trailSpace (sanitize s) = 0
   \<and> (\<forall>c \<in> set (sanitize s). \<not> illegal c)
   \<and> (TrimSpace (ReplaceAllString (TrimSpace s)) = [] \<longrightarrow> sanitize s = ''recording'')
   \<and> sanitize (sanitize s) = sanitize s"
proof (cases "TrimSpace (ReplaceAllString (TrimSpace s)) = []")
  case True
  then have r: "sanitize s = ''recording''" by (simp add: sanitize_def)
  show ?thesis
    unfolding r using recording_trimmed recording_legal sanitize_recording by simp
next
  case False
  let ?t = "TrimSpace (ReplaceAllString (TrimSpace s))"
  from False have r: "sanitize s = ?t" by (simp add: sanitize_def)
  have legal: "\<forall>c \<in> set ?t. \<not> illegal c"
    using TrimSpace_subset ReplaceAllString_legal by blast
  have "sanitize ?t = ?t"
    using False TrimSpace_lead TrimSpace_trail legal by (rule sanitize_fixed)
  with False legal show ?thesis
    unfolding r by (simp add: TrimSpace_lead TrimSpace_trail)
qed

theorem sanitize_spec_witness:
  "TrimSpace (ReplaceAllString (TrimSpace '' :?: '')) = []
   \<and> sanitize '' :?: '' = ''recording''
   \<and> sanitize ''  a:b//c  '' = ''a b c''
   \<and> \<not> (\<exists>c \<in> set ''a b c''. illegal c)
   \<and> sanitize ''a b c'' = ''a b c''"
proof -
  have h: "TrimSpace (ReplaceAllString (TrimSpace '' :?: '')) = []" by code_simp
  have e: "sanitize ''  a:b//c  '' = ''a b c''" by code_simp
  from sanitize_spec [of "'' :?: ''"] h have f: "sanitize '' :?: '' = ''recording''"
    by blast
  from sanitize_spec [of "''  a:b//c  ''"]
  have "\<forall>c \<in> set (sanitize ''  a:b//c  ''). \<not> illegal c"
    and "sanitize (sanitize ''  a:b//c  '') = sanitize ''  a:b//c  ''"
    by blast+
  then have "\<not> (\<exists>c \<in> set ''a b c''. illegal c)" and "sanitize ''a b c'' = ''a b c''"
    unfolding e by blast+
  with h e f show ?thesis by blast
qed
text \<open>
  C10. For every session string and list of extra cookies, the list returned by
  \<open>mergeCookies\<close> has no two cookies of the same name, no nil cookie and no cookie
  with an empty name; when the session string is non-empty the list begins with the
  BREEZESESSION cookie carrying exactly the session value, and no other cookie of the
  list has that name, so the session wins over a BREEZESESSION cookie of the extra
  list. The cookies after the first are cookies of the extra list.
\<close>

theorem mergeCookies_spec:
  "distinct (cookieNames (mergeCookies session extra))
   \<and> None \<notin> set (mergeCookies session extra)
   \<and> [] \<notin> set (cookieNames (mergeCookies session extra))
   \<and> (session \<noteq> [] \<longrightarrow>
        (\<exists>r. mergeCookies session extra = Some (sessionCookie session) # r
           \<and> ''BREEZESESSION'' \<notin> set (cookieNames r) \<and> set r \<subseteq> set extra))
   \<and> (session = [] \<longrightarrow> set (mergeCookies session extra) \<subseteq> set extra)"
proof (cases "session = []")
  case True
  have i: "mergeInv {} []" by (simp add: mergeInv_def cookieNames_def)
  from mergeLoop_inv [OF i, of extra] mergeLoop_prefix [of "{}" "[]" extra] True
  show ?thesis by (auto simp: mergeCookies_def mergeInv_def)
next
  case False
  let ?seen = "{''BREEZESESSION''}"
  let ?c0 = "[Some (sessionCookie session)]"
  have i: "mergeInv ?seen ?c0"
    by (simp add: mergeInv_def cookieNames_def sessionCookie_def)
  have m: "mergeCookies session extra = mergeLoop ?seen ?c0 extra"
    using False by (simp add: mergeCookies_def)
  from mergeLoop_prefix [of ?seen ?c0 extra]
  obtain r where r: "mergeLoop ?seen ?c0 extra = Some (sessionCookie session) # r" "set r \<subseteq> set extra"
    by auto
  from mergeLoop_inv [OF i, of extra] have inv: "distinct (cookieNames (Some (sessionCookie session) # r))"
    "None \<notin> set (Some (sessionCookie session) # r)" "[] \<notin> set (cookieNames (Some (sessionCookie session) # r))"
    unfolding r mergeInv_def by blast+
  from inv(1) have "''BREEZESESSION'' \<notin> set (cookieNames r)"
    by (simp add: cookieNames_def sessionCookie_def)
  with inv r False show ?thesis unfolding m by simp
qed


theorem mergeCookies_spec_witness:
  "''tok'' \<noteq> []
   \<and> mergeCookies ''tok''
        [None,
         Some \<lparr>Name = ''BREEZESESSION'', Value = ''old'', Path = [], Domain = []\<rparr>,
         Some \<lparr>Name = [], Value = ''x'', Path = [], Domain = []\<rparr>,
         Some \<lparr>Name = ''a'', Value = ''1'', Path = [], Domain = []\<rparr>,
         Some \<lparr>Name = ''a'', Value = ''2'', Path = [], Domain = []\<rparr>]
       = [Some (sessionCookie ''tok''),
          Some \<lparr>Name = ''a'', Value = ''1'', Path = [], Domain = []\<rparr>]
   \<and> distinct (cookieNames
        [Some (sessionCookie ''tok''),
         Some \<lparr>Name = ''a'', Value = ''1'', Path = [], Domain = []\<rparr>])"
proof -
  let ?extra = "[None,
         Some \<lparr>Name = ''BREEZESESSION'', Value = ''old'', Path = [], Domain = []\<rparr>,
         Some \<lparr>Name = [], Value = ''x'', Path = [], Domain = []\<rparr>,
         Some \<lparr>Name = ''a'', Value = ''1'', Path = [], Domain = []\<rparr>,
         Some \<lparr>Name = ''a'', Value = ''2'', Path = [], Domain = []\<rparr>]"
  have e: "mergeCookies ''tok'' ?extra
       = [Some (sessionCookie ''tok''),
          Some \<lparr>Name = ''a'', Value = ''1'', Path = [], Domain = []\<rparr>]"
    by (simp add: mergeCookies_def)
  from mergeCookies_spec [of "''tok''" ?extra]
  have "distinct (cookieNames (mergeCookies ''tok'' ?extra))" by blast
  then show ?thesis unfolding e using e by simp
qed

text \<open>
  C5, as stated, fails: a response with status 200 that looks like HTML makes
  \<open>downloadFile\<close> return the not-found error, one of the three errors.
\<close>

theorem status_below_300_not_found:
  "StatusCode (plainResponse 200 ''text/html'' ''<html>login</html>'') < 300
   \<and> snd (downloadFile (answering (plainResponse 200 ''text/html'' ''<html>login</html>'')) []
         ''https://h/rec/output/rec.zip'' ''out/rec.bin'' (optsOf fileKindBinary))
       = Some ErrNotFound"
  by code_simp

text \<open>
  C5, amended. For every response received by \<open>downloadFile\<close>: status 403 gives the
  forbidden error, status 404 the not-found error, and every other status from 300 on
  the unexpected-status error carrying the status. A status below 300 gives neither
  the forbidden error nor an unexpected-status error, and gives the not-found error
  only when the response looks like HTML.
\<close>

theorem downloadFile_status_errors:
  assumes "NewRequestErr w fileURL = None"
    and "Do w (requestFor fileURL opts) = Inr resp"
  shows "(StatusCode resp = 403 \<longrightarrow>
           downloadFile w fs fileURL dest opts
             = (fs, Some (New ''returned 403 (token may be expired or already used)'')))
    \<and> (StatusCode resp = 404 \<longrightarrow> downloadFile w fs fileURL dest opts = (fs, Some ErrNotFound))
    \<and> (300 \<le> StatusCode resp \<and> StatusCode resp \<noteq> 403 \<and> StatusCode resp \<noteq> 404 \<longrightarrow>
           downloadFile w fs fileURL dest opts = (fs, Some (ErrUnexpectedStatus (StatusCode resp))))
    \<and> (StatusCode resp < 300 \<longrightarrow>
           snd (downloadFile w fs fileURL dest opts)
             \<noteq> Some (New ''returned 403 (token may be expired or already used)'')
           \<and> (\<forall>code. snd (downloadFile w fs fileURL dest opts) \<noteq> Some (ErrUnexpectedStatus code))
           \<and> (snd (downloadFile w fs fileURL dest opts) = Some ErrNotFound \<longrightarrow>
                isHTMLResponse (ContentType resp) (take 4096 (Body resp))))"
proof -
  note d = downloadFile_response [OF assms, of fs dest]
  have low: "StatusCode resp < 300 \<Longrightarrow> snd (downloadFile w fs fileURL dest opts) = Some e \<Longrightarrow>
      e = New ''returned HTML instead of video'' \<or> (\<exists>m. e = External m)
      \<or> (e = ErrNotFound \<and> isHTMLResponse (ContentType resp) (take 4096 (Body resp)))
      \<or> e = ErrInvalidZip \<or> (\<exists>pre m. e = Wrapf pre (External m) [])
      \<or> (\<exists>n. e = ErrTooSmall n)" for e
  proof -
    assume lt: "StatusCode resp < 300" and r: "snd (downloadFile w fs fileURL dest opts) = Some e"
    show ?thesis
    proof (cases "Kind opts = fileKindVideo \<and> Contains (ContentType resp) ''text/html''")
      case True
      with lt r d show ?thesis by simp
    next
      case False
      obtain fs1 r1 where m: "MkdirAll w fs (Dir dest) = (fs1, r1)" by (cases "MkdirAll w fs (Dir dest)")
      show ?thesis
      proof (cases r1)
        case (Some e1)
        with m MkdirAll_error have "\<exists>m. e1 = External m" by blast
        with False lt r d m Some show ?thesis by auto
      next
        case None
        obtain fs2 r2 where c: "Create w fs1 dest = (fs2, r2)" by (cases "Create w fs1 dest")
        show ?thesis
        proof (cases r2)
          case (Some e2)
          with c Create_error have "\<exists>m. e2 = External m" by blast
          with False lt r d m None c Some show ?thesis by auto
        next
          case n2: None
          from False lt d m None c n2
          have "downloadFile w fs fileURL dest opts = streamBody w fs2 dest (Kind opts) resp"
            by auto
          with r obtain fs3 where "streamBody w fs2 dest (Kind opts) resp = (fs3, Some e)"
            by (cases "streamBody w fs2 dest (Kind opts) resp") auto
          from streamBody_error [OF this] show ?thesis by blast
        qed
      qed
    qed
  qed
  have high: "StatusCode resp = 403 \<or> StatusCode resp = 404 \<or> 300 \<le> StatusCode resp \<Longrightarrow>
     downloadFile w fs fileURL dest opts =
       (if StatusCode resp = 403
        then (fs, Some (New ''returned 403 (token may be expired or already used)''))
        else if StatusCode resp = 404 then (fs, Some ErrNotFound)
        else (fs, Some (ErrUnexpectedStatus (StatusCode resp))))"
    unfolding d by auto
  show ?thesis
  proof (intro conjI impI allI)
    assume "StatusCode resp = 403" with high
    show "downloadFile w fs fileURL dest opts
             = (fs, Some (New ''returned 403 (token may be expired or already used)''))" by simp
  next
    assume "StatusCode resp = 404" with high
    show "downloadFile w fs fileURL dest opts = (fs, Some ErrNotFound)" by simp
  next
    assume "300 \<le> StatusCode resp \<and> StatusCode resp \<noteq> 403 \<and> StatusCode resp \<noteq> 404" with high
    show "downloadFile w fs fileURL dest opts = (fs, Some (ErrUnexpectedStatus (StatusCode resp)))"
      by simp
  next
    assume lt: "StatusCode resp < 300"
    show "snd (downloadFile w fs fileURL dest opts)
             \<noteq> Some (New ''returned 403 (token may be expired or already used)'')"
      using low [OF lt] by fastforce
  next
    fix code assume lt: "StatusCode resp < 300"
    show "snd (downloadFile w fs fileURL dest opts) \<noteq> Some (ErrUnexpectedStatus code)"
      using low [OF lt] by fastforce
  next
    assume lt: "StatusCode resp < 300"
      and "snd (downloadFile w fs fileURL dest opts) = Some ErrNotFound"
    with low [OF lt] show "isHTMLResponse (ContentType resp) (take 4096 (Body resp))"
      by fastforce
  qed
qed


theorem downloadFile_status_errors_witness:
  "downloadFile (answering (plainResponse 403 ''text/plain'' [])) []
      ''https://h/rec/output/rec.zip'' ''out/.rec_temp.zip'' (optsOf fileKindZip)
     = ([], Some (New ''returned 403 (token may be expired or already used)''))
   \<and> downloadFile (answering (plainResponse 503 ''text/plain'' [])) []
      ''https://h/rec/output/rec.zip'' ''out/.rec_temp.zip'' (optsOf fileKindZip)
     = ([], Some (ErrUnexpectedStatus 503))"
proof -
  let ?u = "''https://h/rec/output/rec.zip''"
  have a: "NewRequestErr (answering r) ?u = None" for r
    by (simp add: answering_def quietWorld_def)
  have b: "Do (answering r) (requestFor ?u (optsOf fileKindZip)) = Inr r" for r
    by (simp add: answering_def quietWorld_def)
  from downloadFile_status_errors [OF a b, of "plainResponse 403 ''text/plain'' []" "[]" "''out/.rec_temp.zip''"]
  have "downloadFile (answering (plainResponse 403 ''text/plain'' [])) []
      ?u ''out/.rec_temp.zip'' (optsOf fileKindZip)
     = ([], Some (New ''returned 403 (token may be expired or already used)''))"
    by (simp add: plainResponse_def)
  moreover
  from downloadFile_status_errors [OF a b, of "plainResponse 503 ''text/plain'' []" "[]" "''out/.rec_temp.zip''"]
  have "downloadFile (answering (plainResponse 503 ''text/plain'' [])) []
      ?u ''out/.rec_temp.zip'' (optsOf fileKindZip)
     = ([], Some (ErrUnexpectedStatus 503))"
    by (simp add: plainResponse_def)
  ultimately show ?thesis by simp
qed

text \<open>
  C6. For every video download that passes the content-type check and the HTML check
  and streams to the end (the directory and the file are created, the body ends
  without an error, the writes and the flush succeed), \<open>downloadFile\<close> returns an error
  if and only if the number of bytes written is below 1024; the error is the
  too-small error carrying that number, and from 1024 bytes on the download succeeds
  with the body in the destination file.
\<close>

theorem video_size_threshold:
  assumes "Kind opts = fileKindVideo"
    and "NewRequestErr w fileURL = None"
    and "Do w (requestFor fileURL opts) = Inr resp"
    and "StatusCode resp < 300"
    and "\<not> Contains (ContentType resp) ''text/html''"
    and "\<not> isHTMLResponse (ContentType resp) (take 4096 (Body resp))"
    and "MkdirAll w fs (Dir dest) = (fs1, None)"
    and "Create w fs1 dest = (fs2, None)"
    and "BodyErr resp = None"
    and "Fault w (OpWrite dest) = None"
    and "Fault w (OpFlush dest) = None"
  shows "(snd (downloadFile w fs fileURL dest opts) \<noteq> None \<longleftrightarrow> length (Body resp) < 1024)
    \<and> (length (Body resp) < 1024 \<longrightarrow>
         snd (downloadFile w fs fileURL dest opts) = Some (ErrTooSmall (int (length (Body resp)))))
    \<and> (1024 \<le> length (Body resp) \<longrightarrow>
         downloadFile w fs fileURL dest opts = (put fs2 dest (File (Body resp)), None))"
proof -
  have d: "downloadFile w fs fileURL dest opts = streamBody w fs2 dest fileKindVideo resp"
    using assms by (simp add: downloadFile_response)
  have s: "snd (streamBody w fs2 dest fileKindVideo resp) =
      (if length (Body resp) < 1024 then Some (ErrTooSmall (int (length (Body resp)))) else None)"
    using assms by (simp add: streamBody_clean)
  have f: "1024 \<le> length (Body resp) \<Longrightarrow>
      streamBody w fs2 dest fileKindVideo resp = (put fs2 dest (File (Body resp)), None)"
    using assms unfolding streamBody_unfold by simp
  from s f show ?thesis unfolding d by simp
qed

theorem video_size_threshold_witness:
  "snd (downloadFile (answering (plainResponse 200 ''video/mp4'' ''abc'')) []
         ''https://h/v.mp4'' ''out/.rec_temp.mp4'' (optsOf fileKindVideo))
     = Some (ErrTooSmall 3)"
proof -
  let ?r = "plainResponse 200 ''video/mp4'' ''abc''"
  let ?w = "answering ?r"
  have 1: "Kind (optsOf fileKindVideo) = fileKindVideo" by (simp add: optsOf_def)
  have 2: "NewRequestErr ?w ''https://h/v.mp4'' = None" by (simp add: answering_def quietWorld_def)
  have 3: "Do ?w (requestFor ''https://h/v.mp4'' (optsOf fileKindVideo)) = Inr ?r"
    by (simp add: answering_def quietWorld_def)
  have 4: "StatusCode ?r < 300" by (simp add: plainResponse_def)
  have 5: "\<not> Contains (ContentType ?r) ''text/html''" by code_simp
  have 6: "\<not> isHTMLResponse (ContentType ?r) (take 4096 (Body ?r))" by code_simp
  have 7: "MkdirAll ?w [] (Dir ''out/.rec_temp.mp4'') = ([(''out'', Directory)], None)" by code_simp
  have 8: "Create ?w [(''out'', Directory)] ''out/.rec_temp.mp4''
      = ([(''out/.rec_temp.mp4'', File []), (''out'', Directory)], None)" by code_simp
  have 9: "BodyErr ?r = None" by (simp add: plainResponse_def)
  have 10: "Fault ?w (OpWrite ''out/.rec_temp.mp4'') = None" by (simp add: answering_def quietWorld_def)
  have 11: "Fault ?w (OpFlush ''out/.rec_temp.mp4'') = None" by (simp add: answering_def quietWorld_def)
  have l: "length (Body ?r) = 3" by (simp add: plainResponse_def)
  from video_size_threshold [OF 1 2 3 4 5 6 7 8 9 10 11] show ?thesis
    unfolding l by simp
qed


end
